theory Spec2Isabelle
  imports Main "HOL-Library.Word"
begin

section \<open>The tokenizer wrapper of llguidance (\<open>_tokenizer.py\<close>)\<close>

text \<open>
  The module holds one class, \<open>TokenizerWrapper\<close>, around a callable \<open>gtokenizer\<close>
  that maps bytes or text to a list of token ids. The embedding follows the source
  method by method: \<open>__init__\<close> is \<open>init\<close>, \<open>_encode_string\<close> is
  \<open>encode_string\<close> and \<open>__call__\<close> is \<open>call\<close>. Every raise of the source is the
  \<open>Inl\<close> branch of a sum.
\<close>

subsection \<open>Values\<close>

text \<open>
  A Python \<open>str\<close> is a sequence of Unicode code points (each below \<open>0x110000\<close>), a
  \<open>bytes\<close> object a sequence of octets, and \<open>TokenId\<close> is Python's unbounded \<open>int\<close>.
\<close>

type_synonym pystr = "nat list"
type_synonym pybytes = "8 word list"
type_synonym TokenId = int

text \<open>
  Exceptions. \<open>AssertionError\<close> carries the message of the \<open>assert\<close> statement that
  raised it: \<open>assert c\<close> raises it with no message (\<open>None\<close>), \<open>assert c, m\<close> with
  \<open>Some m\<close>. \<open>Raised\<close> stands for every other exception, by the name of its class.
\<close>

datatype py_error =
    AssertionError "string option"
  | UnicodeEncodeError
  | Raised string

text \<open>The argument handed to the wrapped tokenizer: \<open>bytes\<close> or \<open>str\<close>.\<close>

datatype tok_input = Bytes pybytes | Str pystr

text \<open>
  The wrapped tokenizer: the three attributes \<open>__init__\<close> reads, and the call itself, a
  fixed function from its argument to the token ids or to the exception it raises.
\<close>

record GTokenizer =
  eos_token_id :: TokenId
  bos_token_id :: "TokenId option"
  tokens :: "pybytes list"
  tcall :: "tok_input \<Rightarrow> py_error + TokenId list"

record TokenizerWrapper =
  gtokenizer :: GTokenizer
  eos_token_id :: TokenId
  bos_token_id :: "TokenId option"
  tokens :: "pybytes list"
  accepts_bytes :: bool
  prefix_string :: pystr
  prefix_tokens :: "TokenId list"

subsection \<open>\<open>str.encode("utf-8")\<close>\<close>

text \<open>
  Python's built-in encoder, one code point at a time. A surrogate code point
  (\<open>0xD800\<close> to \<open>0xDFFF\<close>) cannot be encoded and raises \<open>UnicodeEncodeError\<close>.
\<close>

definition utf8_char :: "nat \<Rightarrow> py_error + pybytes" where
  "utf8_char c =
     (if c < 0x80 then Inr [of_nat c]
      else if c < 0x800 then
        Inr [of_nat (0xC0 + c div 0x40), of_nat (0x80 + c mod 0x40)]
      else if 0xD800 \<le> c \<and> c \<le> 0xDFFF then Inl UnicodeEncodeError
      else if c < 0x10000 then
        Inr [of_nat (0xE0 + c div 0x1000), of_nat (0x80 + c div 0x40 mod 0x40),
             of_nat (0x80 + c mod 0x40)]
      else
        Inr [of_nat (0xF0 + c div 0x40000), of_nat (0x80 + c div 0x1000 mod 0x40),
             of_nat (0x80 + c div 0x40 mod 0x40), of_nat (0x80 + c mod 0x40)])"

fun utf8_encode :: "pystr \<Rightarrow> py_error + pybytes" where
  "utf8_encode [] = Inr []"
| "utf8_encode (c # cs) =
     (case utf8_char c of
        Inl e \<Rightarrow> Inl e
      | Inr b \<Rightarrow> (case utf8_encode cs of Inl e \<Rightarrow> Inl e | Inr bs \<Rightarrow> Inr (b @ bs)))"

subsection \<open>The methods\<close>

text \<open>
  \<open>_encode_string\<close>: with \<open>accepts_bytes\<close> the string is encoded to UTF-8 and the
  bytes are handed over, otherwise the string itself is.
\<close>

definition encode_string :: "TokenizerWrapper \<Rightarrow> pystr \<Rightarrow> py_error + TokenId list" where
  "encode_string self s =
     (if accepts_bytes self then
        (case utf8_encode s of
           Inl e \<Rightarrow> Inl e
         | Inr b \<Rightarrow> tcall (gtokenizer self) (Bytes b))
      else tcall (gtokenizer self) (Str s))"

text \<open>The literals of \<open>__init__\<close>: \<open>b"test"\<close> and \<open>"\<bsol>x02"\<close>.\<close>

definition probe_bytes :: pybytes where
  "probe_bytes = [0x74, 0x65, 0x73, 0x74]"

definition sentinel :: pystr where
  "sentinel = [2]"

text \<open>
  \<open>__init__\<close>, assignment by assignment. The bare \<open>except:\<close> catches whatever the probe
  raises. The last statement calls \<open>_encode_string\<close> outside any \<open>try\<close>, so what it
  raises leaves the constructor. \<open>prefix_string\<close> and \<open>prefix_tokens\<close> do not exist on
  the object before their assignment; the record holds \<open>[]\<close> there, and nothing reads
  it.
\<close>

definition init :: "GTokenizer \<Rightarrow> py_error + TokenizerWrapper" where
  "init g =
     (let self0 = \<lparr> gtokenizer = g,
                    eos_token_id = GTokenizer.eos_token_id g,
                    bos_token_id = GTokenizer.bos_token_id g,
                    tokens = GTokenizer.tokens g,
                    accepts_bytes = True,
                    prefix_string = [],
                    prefix_tokens = [] \<rparr>;
          self1 = (case tcall g (Bytes probe_bytes) of
                     Inl _ \<Rightarrow> self0\<lparr>accepts_bytes := False\<rparr>
                   | Inr _ \<Rightarrow> self0);
          self2 = self1\<lparr>prefix_string := sentinel\<rparr>
      in case encode_string self2 (prefix_string self2) of
           Inl e \<Rightarrow> Inl e
         | Inr toks \<Rightarrow> Inr (self2\<lparr>prefix_tokens := toks\<rparr>))"

text \<open>
  \<open>__call__\<close>. A slice \<open>tokens[:n]\<close> is \<open>take n\<close> and \<open>tokens[n:]\<close> is \<open>drop n\<close>
  (\<open>n\<close> is a length, so never negative). The \<open>assert\<close> has no message.
\<close>

definition call :: "TokenizerWrapper \<Rightarrow> pystr \<Rightarrow> py_error + TokenId list" where
  "call self s =
     (case encode_string self (prefix_string self @ s) of
        Inl e \<Rightarrow> Inl e
      | Inr toks \<Rightarrow>
          if take (length (prefix_tokens self)) toks = prefix_tokens self
          then Inr (drop (length (prefix_tokens self)) toks)
          else Inl (AssertionError None))"

text \<open>
  \<open>__call__\<close> assigns no attribute of \<open>self\<close>: as a step on the object it returns the
  object it was given, next to the outcome. \<open>run_calls\<close> is a sequence of calls on one
  object, the outcomes in order.
\<close>

definition call_step ::
  "TokenizerWrapper \<Rightarrow> pystr \<Rightarrow> (py_error + TokenId list) \<times> TokenizerWrapper" where
  "call_step self s = (call self s, self)"

fun run_calls ::
  "TokenizerWrapper \<Rightarrow> pystr list \<Rightarrow> (py_error + TokenId list) list \<times> TokenizerWrapper" where
  "run_calls self [] = ([], self)"
| "run_calls self (s # ss) =
     (case call_step self s of
        (r, self') \<Rightarrow> (case run_calls self' ss of (rs, self'') \<Rightarrow> (r # rs, self'')))"

subsection \<open>Mock tokenizers\<close>

text \<open>
  A byte-level tokenizer: one token per octet, text refused with \<open>TypeError\<close>.
\<close>

definition byte_tok :: GTokenizer where
  "byte_tok = \<lparr> GTokenizer.eos_token_id = 0, GTokenizer.bos_token_id = None,
       GTokenizer.tokens = [],
       tcall = (\<lambda>i. case i of
                  Bytes b \<Rightarrow> Inr (map (\<lambda>w. int (unat w)) b)
                | Str s \<Rightarrow> Inl (Raised ''TypeError'')) \<rparr>"

text \<open>
  A text tokenizer: one token per code point, bytes refused with \<open>TypeError\<close>.
\<close>

definition text_tok :: GTokenizer where
  "text_tok = \<lparr> GTokenizer.eos_token_id = 1, GTokenizer.bos_token_id = Some 0,
       GTokenizer.tokens = [],
       tcall = (\<lambda>i. case i of
                  Bytes b \<Rightarrow> Inl (Raised ''TypeError'')
                | Str s \<Rightarrow> Inr (map int s)) \<rparr>"

text \<open>
  A text tokenizer that merges the first two code points of its input into one token,
  so the sentinel never stands alone once text follows it.
\<close>

definition merge_tok :: GTokenizer where
  "merge_tok = \<lparr> GTokenizer.eos_token_id = 0, GTokenizer.bos_token_id = None,
       GTokenizer.tokens = [],
       tcall = (\<lambda>i. case i of
                  Bytes b \<Rightarrow> Inl (Raised ''TypeError'')
                | Str s \<Rightarrow>
                    (case s of
                       c # d # r \<Rightarrow> Inr ((1000 * int c + int d) # map int r)
                     | _ \<Rightarrow> Inr (map int s))) \<rparr>"

text \<open>
  A text tokenizer that gives no token at all to an input of at most one code point,
  and one token per code point otherwise.
\<close>

definition short_tok :: GTokenizer where
  "short_tok = \<lparr> GTokenizer.eos_token_id = 0, GTokenizer.bos_token_id = None,
       GTokenizer.tokens = [],
       tcall = (\<lambda>i. case i of
                  Bytes b \<Rightarrow> Inl (Raised ''TypeError'')
                | Str s \<Rightarrow> (if length s \<le> 1 then Inr [] else Inr (map int s))) \<rparr>"

text \<open>
  The byte-level and the text tokenizer again, now raising \<open>ValueError\<close> on an input
  that holds a NUL.
\<close>

definition nul_byte_tok :: GTokenizer where
  "nul_byte_tok = \<lparr> GTokenizer.eos_token_id = 0, GTokenizer.bos_token_id = None,
       GTokenizer.tokens = [],
       tcall = (\<lambda>i. case i of
                  Bytes b \<Rightarrow> (if 0 \<in> set b then Inl (Raised ''ValueError'')
                              else Inr (map (\<lambda>w. int (unat w)) b))
                | Str s \<Rightarrow> Inl (Raised ''TypeError'')) \<rparr>"

definition nul_text_tok :: GTokenizer where
  "nul_text_tok = \<lparr> GTokenizer.eos_token_id = 0, GTokenizer.bos_token_id = None,
       GTokenizer.tokens = [],
       tcall = (\<lambda>i. case i of
                  Bytes b \<Rightarrow> Inl (Raised ''TypeError'')
                | Str s \<Rightarrow> (if 0 \<in> set s then Inl (Raised ''ValueError'')
                            else Inr (map int s))) \<rparr>"

subsection \<open>The object a successful \<open>__init__\<close> leaves\<close>

text \<open>
  The wrapper around \<open>g\<close> with the given flag and prefix tokens: the attributes copied
  from \<open>g\<close> and the sentinel as \<open>prefix_string\<close>.
\<close>

definition wrapper_of :: "GTokenizer \<Rightarrow> bool \<Rightarrow> TokenId list \<Rightarrow> TokenizerWrapper" where
  "wrapper_of g ab p = \<lparr> gtokenizer = g,
        eos_token_id = GTokenizer.eos_token_id g,
        bos_token_id = GTokenizer.bos_token_id g,
        tokens = GTokenizer.tokens g,
        accepts_bytes = ab, prefix_string = sentinel, prefix_tokens = p \<rparr>"

section \<open>Helper facts\<close>

lemma utf8_encode_sentinel: "utf8_encode sentinel = Inr [2]"
  by (simp add: sentinel_def utf8_char_def)

lemma init_probe_ok:
  assumes "tcall g (Bytes probe_bytes) = Inr toks"
  shows "init g = (case tcall g (Bytes [2]) of
                     Inl e \<Rightarrow> Inl e | Inr p \<Rightarrow> Inr (wrapper_of g True p))"
  using assms
  by (simp add: init_def encode_string_def utf8_encode_sentinel wrapper_of_def
           split: sum.splits)

lemma init_probe_fails:
  assumes "tcall g (Bytes probe_bytes) = Inl e"
  shows "init g = (case tcall g (Str sentinel) of
                     Inl e' \<Rightarrow> Inl e' | Inr p \<Rightarrow> Inr (wrapper_of g False p))"
  using assms
  by (simp add: init_def encode_string_def wrapper_of_def split: sum.splits)

lemma text_tok_call [simp]:
  "tcall text_tok (Bytes b) = Inl (Raised ''TypeError'')"
  "tcall text_tok (Str s) = Inr (map int s)"
  by (simp_all add: text_tok_def)

lemma byte_tok_call [simp]:
  "tcall byte_tok (Bytes b) = Inr (map (\<lambda>w. int (unat w)) b)"
  "tcall byte_tok (Str s) = Inl (Raised ''TypeError'')"
  by (simp_all add: byte_tok_def)

lemma merge_tok_call [simp]:
  "tcall merge_tok (Bytes b) = Inl (Raised ''TypeError'')"
  "tcall merge_tok (Str []) = Inr []"
  "tcall merge_tok (Str [c]) = Inr [int c]"
  "tcall merge_tok (Str (c # d # r)) = Inr ((1000 * int c + int d) # map int r)"
  by (simp_all add: merge_tok_def)

lemma short_tok_call [simp]:
  "tcall short_tok (Bytes b) = Inl (Raised ''TypeError'')"
  "tcall short_tok (Str s) = (if length s \<le> 1 then Inr [] else Inr (map int s))"
  by (simp_all add: short_tok_def)

lemma nul_byte_tok_call [simp]:
  "tcall nul_byte_tok (Bytes b) =
     (if 0 \<in> set b then Inl (Raised ''ValueError'') else Inr (map (\<lambda>w. int (unat w)) b))"
  "tcall nul_byte_tok (Str s) = Inl (Raised ''TypeError'')"
  by (simp_all add: nul_byte_tok_def)

lemma nul_text_tok_call [simp]:
  "tcall nul_text_tok (Bytes b) = Inl (Raised ''TypeError'')"
  "tcall nul_text_tok (Str s) =
     (if 0 \<in> set s then Inl (Raised ''ValueError'') else Inr (map int s))"
  by (simp_all add: nul_text_tok_def)

lemma init_text_tok: "init text_tok = Inr (wrapper_of text_tok False [2])"
  by (simp add: init_probe_fails [of text_tok "Raised ''TypeError''"] sentinel_def)

lemma init_byte_tok: "init byte_tok = Inr (wrapper_of byte_tok True [2])"
  by (simp add: init_probe_ok [of byte_tok "map (\<lambda>w. int (unat w)) probe_bytes"])

lemma init_merge_tok: "init merge_tok = Inr (wrapper_of merge_tok False [2])"
  by (simp add: init_probe_fails [of merge_tok "Raised ''TypeError''"] sentinel_def)

lemma init_short_tok: "init short_tok = Inr (wrapper_of short_tok False [])"
  by (simp add: init_probe_fails [of short_tok "Raised ''TypeError''"] sentinel_def)

lemma init_nul_text_tok: "init nul_text_tok = Inr (wrapper_of nul_text_tok False [2])"
  by (simp add: init_probe_fails [of nul_text_tok "Raised ''TypeError''"] sentinel_def)

lemma init_nul_byte_tok: "init nul_byte_tok = Inr (wrapper_of nul_byte_tok True [2])"
  by (simp add: init_probe_ok [of nul_byte_tok "map (\<lambda>w. int (unat w)) probe_bytes"]
        probe_bytes_def)

lemma init_prefix_tokens:
  assumes "init g = Inr w"
  shows "encode_string w (prefix_string w) = Inr (prefix_tokens w)"
    and "prefix_string w = sentinel" and "gtokenizer w = g"
  using assms
  by (auto simp: init_def encode_string_def Let_def split: sum.splits)

section \<open>Properties\<close>

text \<open>
  C1 (prefix stripping). If encoding the sentinel followed by \<open>t\<close> through the wrapped
  tokenizer gives \<open>prefix_tokens\<close> followed by \<open>rest\<close>, then the call on \<open>t\<close> returns
  exactly \<open>rest\<close>.
\<close>

theorem call_strips_prefix:
  assumes "encode_string w (prefix_string w @ t) = Inr (prefix_tokens w @ rest)"
  shows "call w t = Inr rest"
  using assms by (simp add: call_def)

theorem call_strips_prefix_witness:
  "encode_string (wrapper_of byte_tok True [2])
       (prefix_string (wrapper_of byte_tok True [2]) @ [72, 233]) =
     Inr (prefix_tokens (wrapper_of byte_tok True [2]) @ [72, 195, 169])
   \<and> call (wrapper_of byte_tok True [2]) [72, 233] = Inr [72, 195, 169]"
proof -
  have h: "encode_string (wrapper_of byte_tok True [2])
       (prefix_string (wrapper_of byte_tok True [2]) @ [72, 233]) =
     Inr (prefix_tokens (wrapper_of byte_tok True [2]) @ [72, 195, 169])"
    by (simp add: wrapper_of_def encode_string_def sentinel_def utf8_char_def)
  from h call_strips_prefix [OF h] show ?thesis by simp
qed

text \<open>
  C2 (fail-fast on a violated prefix), as the code has it. If the first
  \<open>len(prefix_tokens)\<close> entries of the encoding of the sentinel followed by \<open>t\<close> are
  not \<open>prefix_tokens\<close>, the call returns no slice: it raises \<open>AssertionError\<close>, and
  that exception has no message.
\<close>

theorem call_prefix_mismatch_raises:
  assumes "encode_string w (prefix_string w @ t) = Inr toks"
    and "take (length (prefix_tokens w)) toks \<noteq> prefix_tokens w"
  shows "call w t = Inl (AssertionError None)"
  using assms by (simp add: call_def)

theorem call_prefix_mismatch_raises_witness:
  "encode_string (wrapper_of merge_tok False [2])
       (prefix_string (wrapper_of merge_tok False [2]) @ [66]) = Inr [2066]
   \<and> take (length (prefix_tokens (wrapper_of merge_tok False [2]))) [2066]
        \<noteq> prefix_tokens (wrapper_of merge_tok False [2])
   \<and> call (wrapper_of merge_tok False [2]) [66] = Inl (AssertionError None)"
proof -
  have h1: "encode_string (wrapper_of merge_tok False [2])
       (prefix_string (wrapper_of merge_tok False [2]) @ [66]) = Inr [2066]"
    by (simp add: wrapper_of_def encode_string_def sentinel_def)
  have h2: "take (length (prefix_tokens (wrapper_of merge_tok False [2]))) [2066]
        \<noteq> prefix_tokens (wrapper_of merge_tok False [2])"
    by (simp add: wrapper_of_def)
  from h1 h2 call_prefix_mismatch_raises [OF h1 h2] show ?thesis by simp
qed

text \<open>
  C2 as the specification words it also asks for a diagnostic that identifies the
  mismatch. The wrapper built around \<open>merge_tok\<close> and the text \<open>"A"\<close> show there is
  none: the sentinel and \<open>A\<close> merge into the single token 2065, the prefix check fails,
  and what is raised is the \<open>AssertionError\<close> of a bare \<open>assert\<close>, message \<open>None\<close>.
\<close>

theorem mismatch_failure_has_no_diagnostic:
  "init merge_tok = Inr (wrapper_of merge_tok False [2])
   \<and> tcall merge_tok (Str (sentinel @ [65])) = Inr [2065]
   \<and> take (length (prefix_tokens (wrapper_of merge_tok False [2]))) [2065]
        \<noteq> prefix_tokens (wrapper_of merge_tok False [2])
   \<and> call (wrapper_of merge_tok False [2]) [65] = Inl (AssertionError None)"
  by (simp add: init_merge_tok wrapper_of_def call_def encode_string_def sentinel_def)

text \<open>
  C3 (the probe is swallowed). When the probe call on \<open>b"test"\<close> returns,
  \<open>accepts_bytes\<close> is true and the constructor goes on to calibrate with bytes; when
  it raises, whatever the exception, \<open>accepts_bytes\<close> is false and the constructor
  goes on to calibrate with text. In both cases the constructor's outcome is that of
  the calibration call alone, so the probe's exception never leaves it; and on every
  object the constructor returns, \<open>accepts_bytes\<close> says exactly whether the probe
  returned.
\<close>

theorem init_swallows_probe_failure:
  "(\<forall>toks. tcall g (Bytes probe_bytes) = Inr toks \<longrightarrow>
       init g = (case tcall g (Bytes [2]) of
                   Inl e \<Rightarrow> Inl e | Inr p \<Rightarrow> Inr (wrapper_of g True p)))
   \<and> (\<forall>e. tcall g (Bytes probe_bytes) = Inl e \<longrightarrow>
       init g = (case tcall g (Str sentinel) of
                   Inl e' \<Rightarrow> Inl e' | Inr p \<Rightarrow> Inr (wrapper_of g False p)))
   \<and> (\<forall>w. init g = Inr w \<longrightarrow>
       accepts_bytes w = (\<exists>toks. tcall g (Bytes probe_bytes) = Inr toks))"
proof (intro conjI allI impI)
  fix toks assume "tcall g (Bytes probe_bytes) = Inr toks"
  then show "init g = (case tcall g (Bytes [2]) of
                   Inl e \<Rightarrow> Inl e | Inr p \<Rightarrow> Inr (wrapper_of g True p))"
    by (rule init_probe_ok)
next
  fix e assume "tcall g (Bytes probe_bytes) = Inl e"
  then show "init g = (case tcall g (Str sentinel) of
                   Inl e' \<Rightarrow> Inl e' | Inr p \<Rightarrow> Inr (wrapper_of g False p))"
    by (rule init_probe_fails)
next
  fix w assume w: "init g = Inr w"
  show "accepts_bytes w = (\<exists>toks. tcall g (Bytes probe_bytes) = Inr toks)"
  proof (cases "tcall g (Bytes probe_bytes)")
    case (Inl e)
    from w init_probe_fails [OF Inl] have "\<not> accepts_bytes w"
      by (auto simp: wrapper_of_def split: sum.splits)
    with Inl show ?thesis by simp
  next
    case (Inr toks)
    from w init_probe_ok [OF Inr] have "accepts_bytes w"
      by (auto simp: wrapper_of_def split: sum.splits)
    with Inr show ?thesis by simp
  qed
qed

theorem init_swallows_probe_failure_witness:
  "tcall text_tok (Bytes probe_bytes) = Inl (Raised ''TypeError'')
   \<and> init text_tok = Inr (wrapper_of text_tok False [2])
   \<and> \<not> accepts_bytes (wrapper_of text_tok False [2])
   \<and> tcall byte_tok (Bytes probe_bytes) = Inr [116, 101, 115, 116]
   \<and> init byte_tok = Inr (wrapper_of byte_tok True [2])
   \<and> accepts_bytes (wrapper_of byte_tok True [2])"
proof -
  have t: "tcall text_tok (Bytes probe_bytes) = Inl (Raised ''TypeError'')" by simp
  have b: "tcall byte_tok (Bytes probe_bytes) = Inr [116, 101, 115, 116]"
    by (simp add: probe_bytes_def)
  from init_swallows_probe_failure [of text_tok] t
  have 1: "init text_tok = Inr (wrapper_of text_tok False [2])"
    by (simp add: sentinel_def)
  from init_swallows_probe_failure [of byte_tok] b
  have 2: "init byte_tok = Inr (wrapper_of byte_tok True [2])"
    by simp
  from init_swallows_probe_failure [of text_tok] t 1
  have 3: "\<not> accepts_bytes (wrapper_of text_tok False [2])" by (simp add: sentinel_def)
  from init_swallows_probe_failure [of byte_tok] b 2
  have 4: "accepts_bytes (wrapper_of byte_tok True [2])" by simp
  from t b 1 2 3 4 show ?thesis by simp
qed

text \<open>
  C4 (convention correctness). A tokenizer that succeeds on every \<open>bytes\<close> argument is
  constructed with \<open>accepts_bytes\<close> true. A tokenizer that raises on every \<open>bytes\<close>
  argument and succeeds on every \<open>str\<close> argument is constructed with \<open>accepts_bytes\<close>
  false, and from then on \<open>_encode_string\<close> and every call hand it the string itself
  (for a call, the sentinel followed by the text), never its UTF-8 bytes.
\<close>

theorem init_convention:
  "((\<forall>b. \<exists>toks. tcall g (Bytes b) = Inr toks) \<longrightarrow>
       (\<exists>w. init g = Inr w \<and> accepts_bytes w))
   \<and> ((\<forall>b. \<exists>e. tcall g (Bytes b) = Inl e) \<and> (\<forall>s. \<exists>toks. tcall g (Str s) = Inr toks) \<longrightarrow>
       (\<exists>w. init g = Inr w \<and> \<not> accepts_bytes w
            \<and> (\<forall>s. encode_string w s = tcall g (Str s))
            \<and> (\<forall>t. call w t =
                 (case tcall g (Str (sentinel @ t)) of
                    Inl e \<Rightarrow> Inl e
                  | Inr toks \<Rightarrow>
                      if take (length (prefix_tokens w)) toks = prefix_tokens w
                      then Inr (drop (length (prefix_tokens w)) toks)
                      else Inl (AssertionError None)))))"
proof (intro conjI impI)
  assume a: "\<forall>b. \<exists>toks. tcall g (Bytes b) = Inr toks"
  then obtain toks where p: "tcall g (Bytes probe_bytes) = Inr toks" by blast
  from a obtain q where q: "tcall g (Bytes [2]) = Inr q" by blast
  from init_probe_ok [OF p] q have "init g = Inr (wrapper_of g True q)" by simp
  then show "\<exists>w. init g = Inr w \<and> accepts_bytes w"
    by (simp add: wrapper_of_def)
next
  assume a: "(\<forall>b. \<exists>e. tcall g (Bytes b) = Inl e) \<and> (\<forall>s. \<exists>toks. tcall g (Str s) = Inr toks)"
  then obtain e where p: "tcall g (Bytes probe_bytes) = Inl e" by blast
  from a obtain q where q: "tcall g (Str sentinel) = Inr q" by blast
  from init_probe_fails [OF p] q have i: "init g = Inr (wrapper_of g False q)" by simp
  define w where "w = wrapper_of g False q"
  have f: "\<not> accepts_bytes w" "gtokenizer w = g" "prefix_string w = sentinel"
    by (simp_all add: w_def wrapper_of_def)
  have "\<forall>s. encode_string w s = tcall g (Str s)"
    using f by (simp add: encode_string_def)
  moreover have "\<forall>t. call w t =
                 (case tcall g (Str (sentinel @ t)) of
                    Inl e \<Rightarrow> Inl e
                  | Inr toks \<Rightarrow>
                      if take (length (prefix_tokens w)) toks = prefix_tokens w
                      then Inr (drop (length (prefix_tokens w)) toks)
                      else Inl (AssertionError None))"
    using f by (simp add: call_def encode_string_def)
  ultimately show "\<exists>w. init g = Inr w \<and> \<not> accepts_bytes w
            \<and> (\<forall>s. encode_string w s = tcall g (Str s))
            \<and> (\<forall>t. call w t =
                 (case tcall g (Str (sentinel @ t)) of
                    Inl e \<Rightarrow> Inl e
                  | Inr toks \<Rightarrow>
                      if take (length (prefix_tokens w)) toks = prefix_tokens w
                      then Inr (drop (length (prefix_tokens w)) toks)
                      else Inl (AssertionError None)))"
    using i f(1) unfolding w_def [symmetric] by blast
qed

theorem init_convention_witness:
  "(\<forall>b. \<exists>toks. tcall byte_tok (Bytes b) = Inr toks)
   \<and> (\<exists>w. init byte_tok = Inr w \<and> accepts_bytes w)
   \<and> (\<forall>b. \<exists>e. tcall text_tok (Bytes b) = Inl e)
   \<and> (\<forall>s. \<exists>toks. tcall text_tok (Str s) = Inr toks)
   \<and> (\<exists>w. init text_tok = Inr w \<and> \<not> accepts_bytes w
          \<and> call w [233] = Inr [233])"
proof -
  have b: "\<forall>b. \<exists>toks. tcall byte_tok (Bytes b) = Inr toks" by simp
  have t1: "\<forall>b. \<exists>e. tcall text_tok (Bytes b) = Inl e" by simp
  have t2: "\<forall>s. \<exists>toks. tcall text_tok (Str s) = Inr toks" by simp
  from init_convention [of byte_tok] b
  have 1: "\<exists>w. init byte_tok = Inr w \<and> accepts_bytes w" by blast
  from init_convention [of text_tok] t1 t2
  obtain w where w: "init text_tok = Inr w" "\<not> accepts_bytes w"
    and c: "\<forall>t. call w t =
                 (case tcall text_tok (Str (sentinel @ t)) of
                    Inl e \<Rightarrow> Inl e
                  | Inr toks \<Rightarrow>
                      if take (length (prefix_tokens w)) toks = prefix_tokens w
                      then Inr (drop (length (prefix_tokens w)) toks)
                      else Inl (AssertionError None))"
    by blast
  from w(1) have "prefix_tokens w = [2]" by (auto simp: init_text_tok wrapper_of_def)
  with c have "call w [233] = Inr [233]" by (simp add: sentinel_def)
  with w have 2: "\<exists>w. init text_tok = Inr w \<and> \<not> accepts_bytes w \<and> call w [233] = Inr [233]"
    by blast
  from b t1 t2 1 2 show ?thesis by blast
qed

text \<open>
  C5 (a result is always the suffix of the encoding). Whenever the call on \<open>t\<close>
  returns \<open>r\<close>, the encoding of the sentinel followed by \<open>t\<close> is exactly
  \<open>prefix_tokens\<close> followed by \<open>r\<close>. In particular, when that encoding is shorter than
  \<open>prefix_tokens\<close>, the call returns nothing: it raises.
\<close>

theorem call_result_is_encoding_suffix:
  "(\<forall>r. call w t = Inr r \<longrightarrow>
       encode_string w (prefix_string w @ t) = Inr (prefix_tokens w @ r))
   \<and> (\<forall>toks. encode_string w (prefix_string w @ t) = Inr toks
          \<and> length toks < length (prefix_tokens w) \<longrightarrow>
        call w t = Inl (AssertionError None))"
proof (intro conjI allI impI)
  fix r assume r: "call w t = Inr r"
  then obtain toks where toks: "encode_string w (prefix_string w @ t) = Inr toks"
    by (auto simp: call_def split: sum.splits)
  with r have "take (length (prefix_tokens w)) toks = prefix_tokens w"
    and "drop (length (prefix_tokens w)) toks = r"
    by (auto simp: call_def split: if_splits)
  then have "prefix_tokens w @ r = toks"
    using append_take_drop_id [of "length (prefix_tokens w)" toks] by simp
  with toks show "encode_string w (prefix_string w @ t) = Inr (prefix_tokens w @ r)"
    by simp
next
  fix toks
  assume a: "encode_string w (prefix_string w @ t) = Inr toks
          \<and> length toks < length (prefix_tokens w)"
  then have "length (take (length (prefix_tokens w)) toks) \<noteq> length (prefix_tokens w)"
    by simp
  then have "take (length (prefix_tokens w)) toks \<noteq> prefix_tokens w" by metis
  with a show "call w t = Inl (AssertionError None)" by (simp add: call_def)
qed

theorem call_result_is_encoding_suffix_witness:
  "call (wrapper_of text_tok False [2]) [72, 105] = Inr [72, 105]
   \<and> encode_string (wrapper_of text_tok False [2])
        (prefix_string (wrapper_of text_tok False [2]) @ [72, 105])
      = Inr (prefix_tokens (wrapper_of text_tok False [2]) @ [72, 105])
   \<and> encode_string (wrapper_of short_tok False [2, 2])
        (prefix_string (wrapper_of short_tok False [2, 2]) @ []) = Inr []
   \<and> length ([] :: TokenId list) < length (prefix_tokens (wrapper_of short_tok False [2, 2]))
   \<and> call (wrapper_of short_tok False [2, 2]) [] = Inl (AssertionError None)"
proof -
  have 1: "call (wrapper_of text_tok False [2]) [72, 105] = Inr [72, 105]"
    by (simp add: call_def encode_string_def wrapper_of_def sentinel_def)
  have 2: "encode_string (wrapper_of short_tok False [2, 2])
        (prefix_string (wrapper_of short_tok False [2, 2]) @ []) = Inr []"
    by (simp add: encode_string_def wrapper_of_def sentinel_def)
  have 3: "length ([] :: TokenId list)
             < length (prefix_tokens (wrapper_of short_tok False [2, 2]))"
    by (simp add: wrapper_of_def)
  from call_result_is_encoding_suffix [of "wrapper_of text_tok False [2]" "[72, 105]"] 1
  have 4: "encode_string (wrapper_of text_tok False [2])
        (prefix_string (wrapper_of text_tok False [2]) @ [72, 105])
      = Inr (prefix_tokens (wrapper_of text_tok False [2]) @ [72, 105])"
    by blast
  from call_result_is_encoding_suffix [of "wrapper_of short_tok False [2, 2]" "[]"] 2 3
  have 5: "call (wrapper_of short_tok False [2, 2]) [] = Inl (AssertionError None)"
    by blast
  from 1 2 3 4 5 show ?thesis by blast
qed

text \<open>
  C6 (tokenizer errors propagate). Whatever exception the wrapped tokenizer raises on
  the sentinel followed by \<open>t\<close> (on its UTF-8 bytes when \<open>accepts_bytes\<close>, on the
  string itself otherwise) is the exception the call raises, unchanged.
\<close>

theorem call_propagates_tokenizer_error:
  "(accepts_bytes w \<and> utf8_encode (prefix_string w @ t) = Inr b
      \<and> tcall (gtokenizer w) (Bytes b) = Inl e \<longrightarrow> call w t = Inl e)
   \<and> (\<not> accepts_bytes w \<and> tcall (gtokenizer w) (Str (prefix_string w @ t)) = Inl e
      \<longrightarrow> call w t = Inl e)"
  by (simp add: call_def encode_string_def)

theorem call_propagates_tokenizer_error_witness:
  "accepts_bytes (wrapper_of nul_byte_tok True [2])
   \<and> utf8_encode (prefix_string (wrapper_of nul_byte_tok True [2]) @ [65, 0]) = Inr [2, 65, 0]
   \<and> tcall (gtokenizer (wrapper_of nul_byte_tok True [2])) (Bytes [2, 65, 0])
        = Inl (Raised ''ValueError'')
   \<and> call (wrapper_of nul_byte_tok True [2]) [65, 0] = Inl (Raised ''ValueError'')
   \<and> \<not> accepts_bytes (wrapper_of nul_text_tok False [2])
   \<and> tcall (gtokenizer (wrapper_of nul_text_tok False [2]))
        (Str (prefix_string (wrapper_of nul_text_tok False [2]) @ [0]))
        = Inl (Raised ''ValueError'')
   \<and> call (wrapper_of nul_text_tok False [2]) [0] = Inl (Raised ''ValueError'')"
proof -
  have b1: "accepts_bytes (wrapper_of nul_byte_tok True [2])"
    by (simp add: wrapper_of_def)
  have b2: "utf8_encode (prefix_string (wrapper_of nul_byte_tok True [2]) @ [65, 0])
              = Inr [2, 65, 0]"
    by (simp add: wrapper_of_def sentinel_def utf8_char_def)
  have b3: "tcall (gtokenizer (wrapper_of nul_byte_tok True [2])) (Bytes [2, 65, 0])
              = Inl (Raised ''ValueError'')"
    by (simp add: wrapper_of_def)
  have t1: "\<not> accepts_bytes (wrapper_of nul_text_tok False [2])"
    by (simp add: wrapper_of_def)
  have t2: "tcall (gtokenizer (wrapper_of nul_text_tok False [2]))
        (Str (prefix_string (wrapper_of nul_text_tok False [2]) @ [0]))
        = Inl (Raised ''ValueError'')"
    by (simp add: wrapper_of_def sentinel_def)
  from call_propagates_tokenizer_error
         [of "wrapper_of nul_byte_tok True [2]" "[65, 0]" "[2, 65, 0]" "Raised ''ValueError''"]
       b1 b2 b3
  have b4: "call (wrapper_of nul_byte_tok True [2]) [65, 0] = Inl (Raised ''ValueError'')"
    by blast
  from call_propagates_tokenizer_error
         [of "wrapper_of nul_text_tok False [2]" "[0]" _ "Raised ''ValueError''"]
       t1 t2
  have t3: "call (wrapper_of nul_text_tok False [2]) [0] = Inl (Raised ''ValueError'')"
    by blast
  from b1 b2 b3 b4 t1 t2 t3 show ?thesis by blast
qed

text \<open>
  C7 (empty string). If encoding the sentinel followed by the empty string gives
  exactly \<open>prefix_tokens\<close>, the call on the empty string returns the empty list.
\<close>

theorem call_empty_string:
  assumes "encode_string w (prefix_string w @ []) = Inr (prefix_tokens w)"
  shows "call w [] = Inr []"
  using assms by (simp add: call_def)

theorem call_empty_string_witness:
  "encode_string (wrapper_of byte_tok True [2])
       (prefix_string (wrapper_of byte_tok True [2]) @ [])
     = Inr (prefix_tokens (wrapper_of byte_tok True [2]))
   \<and> call (wrapper_of byte_tok True [2]) [] = Inr []"
proof -
  have "encode_string (wrapper_of byte_tok True [2]) (prefix_string (wrapper_of byte_tok True [2]))
          = Inr (prefix_tokens (wrapper_of byte_tok True [2]))"
    by (rule init_prefix_tokens(1) [OF init_byte_tok])
  then have h: "encode_string (wrapper_of byte_tok True [2])
       (prefix_string (wrapper_of byte_tok True [2]) @ [])
     = Inr (prefix_tokens (wrapper_of byte_tok True [2]))" by simp
  from h call_empty_string [OF h] show ?thesis by blast
qed

text \<open>
  C8 (empty prefix). If the constructed wrapper's encoding of the sentinel alone is the
  empty list, then \<open>prefix_tokens\<close> is empty, the prefix check passes whatever the
  encoding is, and the call on any \<open>t\<close> gives back the whole outcome of encoding the
  sentinel followed by \<open>t\<close>, the sentinel's own tokens included.
\<close>

theorem call_with_empty_prefix:
  assumes "init g = Inr w" and "encode_string w sentinel = Inr []"
  shows "prefix_tokens w = [] \<and> call w t = encode_string w (sentinel @ t)"
proof -
  from assms(1) have p: "encode_string w (prefix_string w) = Inr (prefix_tokens w)"
    and s: "prefix_string w = sentinel"
    by (rule init_prefix_tokens)+
  from p s assms(2) have e: "prefix_tokens w = []" by simp
  then have "call w t = encode_string w (sentinel @ t)"
    using s by (simp add: call_def split: sum.splits)
  with e show ?thesis by simp
qed

theorem call_with_empty_prefix_witness:
  "init short_tok = Inr (wrapper_of short_tok False [])
   \<and> encode_string (wrapper_of short_tok False []) sentinel = Inr []
   \<and> prefix_tokens (wrapper_of short_tok False []) = []
   \<and> encode_string (wrapper_of short_tok False []) (sentinel @ [65]) = Inr [2, 65]
   \<and> call (wrapper_of short_tok False []) [65] = Inr [2, 65]"
proof -
  have h: "encode_string (wrapper_of short_tok False []) sentinel = Inr []"
    by (simp add: encode_string_def wrapper_of_def sentinel_def)
  have f: "encode_string (wrapper_of short_tok False []) (sentinel @ [65]) = Inr [2, 65]"
    by (simp add: encode_string_def wrapper_of_def sentinel_def)
  from call_with_empty_prefix [OF init_short_tok h, of "[65]"] f init_short_tok h
  show ?thesis by simp
qed

text \<open>
  C9 (no mutation). After any sequence of calls the object is the one the sequence
  started from: \<open>eos_token_id\<close>, \<open>bos_token_id\<close>, \<open>tokens\<close>, \<open>accepts_bytes\<close>,
  \<open>prefix_string\<close> and \<open>prefix_tokens\<close> are unchanged.
\<close>

theorem run_calls_leaves_fields:
  "eos_token_id (snd (run_calls w ts)) = eos_token_id w
   \<and> bos_token_id (snd (run_calls w ts)) = bos_token_id w
   \<and> tokens (snd (run_calls w ts)) = tokens w
   \<and> accepts_bytes (snd (run_calls w ts)) = accepts_bytes w
   \<and> prefix_string (snd (run_calls w ts)) = prefix_string w
   \<and> prefix_tokens (snd (run_calls w ts)) = prefix_tokens w
   \<and> snd (run_calls w ts) = w"
proof -
  have "snd (run_calls w ts) = w"
  proof (induction ts arbitrary: w)
    case Nil
    show ?case by simp
  next
    case (Cons s ss)
    from Cons.IH [of w] show ?case
      by (auto simp: call_step_def split: prod.splits)
  qed
  then show ?thesis by simp
qed

theorem run_calls_leaves_fields_witness:
  "snd (run_calls (wrapper_of merge_tok False [2]) [[], [65], [0xD800]])
     = wrapper_of merge_tok False [2]
   \<and> prefix_tokens (snd (run_calls (wrapper_of merge_tok False [2]) [[], [65], [0xD800]])) = [2]"
  using run_calls_leaves_fields [of "wrapper_of merge_tok False [2]" "[[], [65], [0xD800]]"]
  by (simp add: wrapper_of_def)

text \<open>
  C10 (determinism). Two successive calls on the same text, on the same object, have
  the same outcome.
\<close>

theorem call_twice_same_result:
  "fst (call_step (snd (call_step w t)) t) = fst (call_step w t)
   \<and> fst (run_calls w [t, t]) = [call w t, call w t]"
  by (simp add: call_step_def)

theorem call_twice_same_result_witness:
  "fst (run_calls (wrapper_of byte_tok True [2]) [[72, 105], [72, 105]])
     = [Inr [72, 105], Inr [72, 105]]"
proof -
  have "call (wrapper_of byte_tok True [2]) [72, 105] = Inr [72, 105]"
    by (simp add: call_def encode_string_def wrapper_of_def sentinel_def utf8_char_def)
  with call_twice_same_result [of "wrapper_of byte_tok True [2]" "[72, 105]"]
  show ?thesis by simp
qed

end
